theory Spec2Isabelle
  imports Main
begin

unbundle bit_operations_syntax

section \<open>Strings\<close>

text \<open>
  A JavaScript string is modelled as a list of code units below 256, so that a code unit is
  an Isabelle character. The classes below are those of ECMAScript restricted to that range:
  word characters (\<open>\w\<close>), white space (\<open>\s\<close>, also what \<open>trim\<close> removes) and line terminators
  (which \<open>.\<close> does not match). \<open>canonicalize\<close> is the case folding of the \<open>i\<close> flag.
\<close>

definition is_word :: "char \<Rightarrow> bool" where
  "is_word c = (let n = (of_char c :: nat) in
     (48 \<le> n \<and> n \<le> 57) \<or> (65 \<le> n \<and> n \<le> 90) \<or> n = 95 \<or> (97 \<le> n \<and> n \<le> 122))"

definition is_space :: "char \<Rightarrow> bool" where
  "is_space c = (let n = (of_char c :: nat) in (9 \<le> n \<and> n \<le> 13) \<or> n = 32 \<or> n = 160)"

definition is_line_terminator :: "char \<Rightarrow> bool" where
  "is_line_terminator c = (c = CHR 0x0A \<or> c = CHR 0x0D)"

definition canonicalize :: "char \<Rightarrow> char" where
  "canonicalize c = (let n = (of_char c :: nat) in
     if 97 \<le> n \<and> n \<le> 122 then char_of (n - 32) else c)"

definition substr :: "string \<Rightarrow> nat \<Rightarrow> nat \<Rightarrow> string" where
  "substr s start len = take len (drop start s)"

definition trim :: "string \<Rightarrow> string" where
  "trim s = rev (dropWhile is_space (rev (dropWhile is_space s)))"

fun split :: "char \<Rightarrow> string \<Rightarrow> string list" where
  "split sep [] = [[]]"
| "split sep (c # cs) =
     (if c = sep then [] # split sep cs
      else (case split sep cs of [] \<Rightarrow> [[c]] | p # ps \<Rightarrow> (c # p) # ps))"

fun join :: "string \<Rightarrow> string list \<Rightarrow> string" where
  "join sep [] = []"
| "join sep [x] = x"
| "join sep (x # y # ys) = x @ sep @ join sep (y # ys)"

section \<open>Regular expressions\<close>

text \<open>
  The constructs the program's regular expressions use. A position in the subject string is
  the character before it (\<open>None\<close> at the start of the input) and the text from it on; the
  lookbehinds of the program only inspect that one character or the start of the input.
  \<open>rmatch r prev rest\<close> lists the positions at which a match of \<open>r\<close> starting at the position
  \<open>(prev, rest)\<close> can end, in the order in which a backtracking matcher tries them, so that the
  head of the list is the match that JavaScript reports.
\<close>

datatype citem = CChr char | CNonWord | CSpace

fun citem_match :: "citem \<Rightarrow> char \<Rightarrow> bool" where
  "citem_match (CChr d) c = (c = d)"
| "citem_match CNonWord c = (\<not> is_word c)"
| "citem_match CSpace c = is_space c"

datatype bitem = BChr char | BStart

fun bitem_match :: "bitem \<Rightarrow> char option \<Rightarrow> bool" where
  "bitem_match (BChr d) prev = (prev = Some d)"
| "bitem_match BStart prev = (prev = None)"

datatype regex =
    Lit string
  | LitI string
  | Dot
  | NegClass "citem list"
  | Seq regex regex
  | Alt regex regex
  | Plus regex
  | PlusLazy regex
  | Eol
  | WordB
  | LookAhead regex
  | LookBehind "bitem list"
  | NegLookBehind "bitem list"

type_synonym pos = "char option \<times> string"

fun lit_match :: "bool \<Rightarrow> string \<Rightarrow> char option \<Rightarrow> string \<Rightarrow> pos list" where
  "lit_match ci [] prev rest = [(prev, rest)]"
| "lit_match ci (c # cs) prev [] = []"
| "lit_match ci (c # cs) prev (x # xs) =
     (if (if ci then canonicalize x = canonicalize c else x = c)
      then lit_match ci cs (Some x) xs else [])"

definition word_before :: "char option \<Rightarrow> bool" where
  "word_before prev = (case prev of None \<Rightarrow> False | Some c \<Rightarrow> is_word c)"

definition word_after :: "string \<Rightarrow> bool" where
  "word_after rest = (case rest of [] \<Rightarrow> False | c # _ \<Rightarrow> is_word c)"

function rmatch :: "regex \<Rightarrow> char option \<Rightarrow> string \<Rightarrow> pos list" where
  "rmatch (Lit l) prev rest = lit_match False l prev rest"
| "rmatch (LitI l) prev rest = lit_match True l prev rest"
| "rmatch Dot prev rest =
     (case rest of [] \<Rightarrow> [] | x # xs \<Rightarrow> if is_line_terminator x then [] else [(Some x, xs)])"
| "rmatch (NegClass cs) prev rest =
     (case rest of [] \<Rightarrow> []
      | x # xs \<Rightarrow> if list_ex (\<lambda>it. citem_match it x) cs then [] else [(Some x, xs)])"
| "rmatch (Seq a b) prev rest =
     concat (map (\<lambda>(prev', rest'). rmatch b prev' rest') (rmatch a prev rest))"
| "rmatch (Alt a b) prev rest = rmatch a prev rest @ rmatch b prev rest"
| "rmatch (Plus a) prev rest =
     concat (map (\<lambda>(prev', rest').
                    (if length rest' < length rest then rmatch (Plus a) prev' rest' else [])
                    @ [(prev', rest')])
                 (rmatch a prev rest))"
| "rmatch (PlusLazy a) prev rest =
     concat (map (\<lambda>(prev', rest').
                    (prev', rest')
                    # (if length rest' < length rest then rmatch (PlusLazy a) prev' rest' else []))
                 (rmatch a prev rest))"
| "rmatch Eol prev rest = (if rest = [] then [(prev, rest)] else [])"
| "rmatch WordB prev rest = (if word_before prev \<noteq> word_after rest then [(prev, rest)] else [])"
| "rmatch (LookAhead a) prev rest = (if rmatch a prev rest = [] then [] else [(prev, rest)])"
| "rmatch (LookBehind bs) prev rest =
     (if list_ex (\<lambda>b. bitem_match b prev) bs then [(prev, rest)] else [])"
| "rmatch (NegLookBehind bs) prev rest =
     (if list_ex (\<lambda>b. bitem_match b prev) bs then [] else [(prev, rest)])"
  by pat_completeness auto
termination
  by (relation "measures [\<lambda>(r, p, s). size r, \<lambda>(r, p, s). length s]") auto

text \<open>The text matched between a position and a later one, given by what is left at each.\<close>

definition matched :: "string \<Rightarrow> string \<Rightarrow> string" where
  "matched rest rest' = take (length rest - length rest') rest"

text \<open>
  \<open>String.prototype.replaceAll\<close> with a global regular expression: the subject is scanned from
  the left; at a position with a match, the replacement is emitted and the scan resumes where
  the match ended (one character further on after an empty match), otherwise the character
  is copied. A matcher gives, for a position, where the match ends and its replacement text.
\<close>

type_synonym matcher = "char option \<Rightarrow> string \<Rightarrow> (pos \<times> string) option"

definition re_const :: "regex \<Rightarrow> string \<Rightarrow> matcher" where
  "re_const r rep prev rest =
     (case rmatch r prev rest of [] \<Rightarrow> None | e # _ \<Rightarrow> Some (e, rep))"

function replace_from :: "matcher \<Rightarrow> char option \<Rightarrow> string \<Rightarrow> string" where
  "replace_from m prev rest =
     (case m prev rest of
        None \<Rightarrow> (case rest of [] \<Rightarrow> [] | c # cs \<Rightarrow> c # replace_from m (Some c) cs)
      | Some ((prev', rest'), rep) \<Rightarrow>
          (if length rest' < length rest then rep @ replace_from m prev' rest'
           else rep @ (case rest of [] \<Rightarrow> [] | c # cs \<Rightarrow> c # replace_from m (Some c) cs)))"
  by pat_completeness auto
termination
  by (relation "measure (\<lambda>(m, p, s). length s)") auto

declare replace_from.simps [simp del]

definition replaceAll :: "string \<Rightarrow> regex \<Rightarrow> string \<Rightarrow> string" where
  "replaceAll s r rep = replace_from (re_const r rep) None s"

text \<open>
  \<open>String.prototype.match\<close> with a global regular expression: the matched texts, from the
  left. JavaScript returns \<open>null\<close> when there is none; the program only builds a \<open>Set\<close> from
  the result, and a \<open>Set\<close> built from \<open>null\<close> is empty, so \<open>null\<close> is the empty list here.
\<close>

function match_from :: "regex \<Rightarrow> char option \<Rightarrow> string \<Rightarrow> string list" where
  "match_from r prev rest =
     (case rmatch r prev rest of
        [] \<Rightarrow> (case rest of [] \<Rightarrow> [] | c # cs \<Rightarrow> match_from r (Some c) cs)
      | (prev', rest') # _ \<Rightarrow>
          matched rest rest' #
          (if length rest' < length rest then match_from r prev' rest'
           else (case rest of [] \<Rightarrow> [] | c # cs \<Rightarrow> match_from r (Some c) cs)))"
  by pat_completeness auto
termination
  by (relation "measure (\<lambda>(r, p, s). length s)") auto

declare match_from.simps [simp del]

definition match_all :: "string \<Rightarrow> regex \<Rightarrow> string list" where
  "match_all s r = match_from r None s"

section \<open>The regular expressions of the program\<close>

definition bslash :: char where "bslash = CHR 0x5C"

text \<open>\<^verbatim>\<open>/(?<= |^|\(|\))(T|true)(?= |$|\(|\))+/g\<close>\<close>

definition re_true :: regex where
  "re_true = Seq (LookBehind [BChr CHR '' '', BStart, BChr CHR ''('', BChr CHR '')''])
            (Seq (Alt (Lit ''T'') (Lit ''true''))
                 (Plus (LookAhead (Alt (Lit '' '') (Alt Eol (Alt (Lit ''('') (Lit '')'')))))))"

text \<open>\<^verbatim>\<open>/(?<= |^|\(|\))(F|false)(?= |$|\(|\))+/g\<close>\<close>

definition re_false :: regex where
  "re_false = Seq (LookBehind [BChr CHR '' '', BStart, BChr CHR ''('', BChr CHR '')''])
            (Seq (Alt (Lit ''F'') (Lit ''false''))
                 (Plus (LookAhead (Alt (Lit '' '') (Alt Eol (Alt (Lit ''('') (Lit '')'')))))))"

text \<open>\<^verbatim>\<open>/(?<= |^)(and|[&]|\/\\|\^)+(?= |$)/g\<close>\<close>

definition re_and :: regex where
  "re_and = Seq (LookBehind [BChr CHR '' '', BStart])
           (Seq (Plus (Alt (Lit ''and'') (Alt (Lit ''&'') (Alt (Lit [CHR ''/'', bslash]) (Lit ''^'')))))
                (LookAhead (Alt (Lit '' '') Eol)))"

text \<open>\<^verbatim>\<open>/(?<= |^)(or|[\|]|\\\/)+(?= |$)/g\<close>\<close>

definition re_or :: regex where
  "re_or = Seq (LookBehind [BChr CHR '' '', BStart])
           (Seq (Plus (Alt (Lit ''or'') (Alt (Lit ''|'') (Lit [bslash, CHR ''/'']))))
                (LookAhead (Alt (Lit '' '') Eol)))"

text \<open>
  \<^verbatim>\<open>/(?<= |^|\(|\))(not |not|!|..)+/g\<close>, where the last alternative is, in the source file,
  the two code units 0xC2 0xAC.
\<close>

definition re_not :: regex where
  "re_not = Seq (LookBehind [BChr CHR '' '', BStart, BChr CHR ''('', BChr CHR '')''])
           (Plus (Alt (Lit ''not '') (Alt (Lit ''not'') (Alt (Lit ''!'') (Lit [CHR 0xC2, CHR 0xAC])))))"

text \<open>\<^verbatim>\<open>/(then|(?<!<)-+>)/g\<close>\<close>

definition re_then :: regex where
  "re_then = Alt (Lit ''then'') (Seq (NegLookBehind [BChr CHR ''<'']) (Seq (Plus (Lit ''-'')) (Lit ''>'')))"

text \<open>\<^verbatim>\<open>/(?<= |^)(<-+>|=)+(?= |$)/g\<close>\<close>

definition re_equals :: regex where
  "re_equals = Seq (LookBehind [BChr CHR '' '', BStart])
           (Seq (Plus (Alt (Seq (Lit ''<'') (Seq (Plus (Lit ''-'')) (Lit ''>''))) (Lit ''='')))
                (LookAhead (Alt (Lit '' '') Eol)))"

text \<open>\<^verbatim>\<open>/(?<= |^)(\(\+\)|xor)+(?= |$)/g\<close>\<close>

definition re_xor :: regex where
  "re_xor = Seq (LookBehind [BChr CHR '' '', BStart])
           (Seq (Plus (Alt (Lit ''(+)'') (Lit ''xor'')))
                (LookAhead (Alt (Lit '' '') Eol)))"

text \<open>\<^verbatim>\<open>/[^\W\s01]+/g\<close>\<close>

definition re_premises :: regex where
  "re_premises = Plus (NegClass [CNonWord, CSpace, CChr CHR ''0'', CChr CHR ''1''])"

text \<open>
  \<^verbatim>\<open>/(.[^-]+?)(?:then|(?<!<)-+>)(.+)/g\<close> with its two capture groups: the ways to match, in
  backtracking order, each given by the positions where group 1, the marker and group 2 end.
  The replacement function of \<open>parse\<close> builds its text from the two groups.
\<close>

definition thenWrap_groups :: "char option \<Rightarrow> string \<Rightarrow> (pos \<times> pos \<times> pos) list" where
  "thenWrap_groups prev rest =
     concat (map (\<lambda>(b1, r1).
               concat (map (\<lambda>(b2, r2). map (\<lambda>e3. ((b1, r1), (b2, r2), e3)) (rmatch (Plus Dot) b2 r2))
                           (rmatch re_then b1 r1)))
             (rmatch (Seq Dot (PlusLazy (NegClass [CChr CHR ''-'']))) prev rest))"

definition thenWrap :: matcher where
  "thenWrap prev rest =
     (case thenWrap_groups prev rest of
        [] \<Rightarrow> None
      | ((b1, r1), (b2, r2), (b3, r3)) # _ \<Rightarrow>
          Some ((b3, r3), ''!('' @ trim (matched rest r1) @ '') || ('' @ trim (matched r2 r3) @ '')''))"

text \<open>\<^verbatim>\<open>new RegExp(`\\b(${premise})\\b`, 'gi')\<close>; a premise consists of word characters only.\<close>

definition re_premise :: "string \<Rightarrow> regex" where
  "re_premise premise = Seq WordB (Seq (LitI premise) WordB)"

section \<open>The expression compiler\<close>

text \<open>
  The loop of \<open>replaceParanthesis\<close>, with its variables \<open>string\<close>, \<open>i\<close>, \<open>control\<close> and
  \<open>startIndex\<close>. \<open>startIndex\<close> is \<open>-1\<close> or an index, so \<open>startIndex + 1\<close> is a natural number.
\<close>

function rp_loop :: "(string \<Rightarrow> string) \<Rightarrow> string \<Rightarrow> nat \<Rightarrow> int \<Rightarrow> int \<Rightarrow> string" where
  "rp_loop callback string i control startIndex =
     (if i < length string then
        (if string ! i = CHR ''('' then
           (let control = control + 1;
                startIndex = (if control = 1 then int i else startIndex)
            in rp_loop callback string (Suc i) control startIndex)
         else if string ! i = CHR '')'' then
           (let control = control - 1 in
            if control = 0 then
              (let replacementString =
                     callback (substr string (nat (startIndex + 1)) (nat (int i - startIndex - 1)));
                   string = substr string 0 (nat (startIndex + 1)) @ replacementString @ drop i string;
                   i = startIndex + int (length replacementString) + 3
               in rp_loop callback string (nat (i + 1)) control startIndex)
            else rp_loop callback string (Suc i) control startIndex)
         else rp_loop callback string (Suc i) control startIndex)
      else string)"
  by pat_completeness auto
termination
  apply (relation "measures [\<lambda>(cb, s, i, c, st). if st < -1 \<and> 1 \<le> c then 1 else 0,
                            \<lambda>(cb, s, i, c, st). length s - i]")
  apply (auto simp: substr_def)
  done

declare rp_loop.simps [simp del]

definition replaceParanthesis :: "string \<Rightarrow> (string \<Rightarrow> string) \<Rightarrow> string" where
  "replaceParanthesis string callback = rp_loop callback string 0 0 (- 1)"

text \<open>
  The callback is only applied to texts between two parentheses of the string, which are
  shorter than the string; this is what makes the recursion of \<open>parse\<close> through
  \<open>replaceParanthesis\<close> terminate.
\<close>

lemma rp_loop_cong_aux:
  "\<forall>t. length t < L \<longrightarrow> f t = g t \<Longrightarrow> length string \<le> L + i \<Longrightarrow>
   (1 \<le> control \<longrightarrow>
      0 \<le> startIndex \<and> startIndex < int i \<and> int (length string) - startIndex \<le> int L) \<Longrightarrow>
   rp_loop f string i control startIndex = rp_loop g string i control startIndex"
proof (induction f string i control startIndex rule: rp_loop.induct)
  case (1 callback string i control startIndex)
  note fg = "1.prems"(1)
  note unf = rp_loop.simps[of callback string i control startIndex]
             rp_loop.simps[of g string i control startIndex]
  show ?case
  proof (cases "i < length string")
    case False
    then show ?thesis by (simp add: unf)
  next
    case True
    note lt = True
    show ?thesis
    proof (cases "string ! i = CHR ''(''")
      case True
      have "rp_loop callback string (Suc i) (control + 1) (if control + 1 = 1 then int i else startIndex)
          = rp_loop g string (Suc i) (control + 1) (if control + 1 = 1 then int i else startIndex)"
        apply (rule "1.IH"(1)[OF lt True refl refl fg])
        using "1.prems"(2,3) lt by auto
      then show ?thesis using lt True
        by (simp add: unf Let_def)
    next
      case False
      note nopen = False
      show ?thesis
      proof (cases "string ! i = CHR '')''")
        case False
        have "rp_loop callback string (Suc i) control startIndex
            = rp_loop g string (Suc i) control startIndex"
          apply (rule "1.IH"(4)[OF lt nopen False fg])
          using "1.prems"(2,3) lt by auto
        then show ?thesis using lt nopen False
          by (simp add: unf Let_def)
      next
        case True
        note close = True
        show ?thesis
        proof (cases "control - 1 = 0")
          case False
          have "rp_loop callback string (Suc i) (control - 1) startIndex
              = rp_loop g string (Suc i) (control - 1) startIndex"
            apply (rule "1.IH"(3)[OF lt nopen close refl False fg])
            using "1.prems"(2,3) False lt by auto
          then show ?thesis using lt nopen close False
            by (simp add: unf Let_def)
        next
          case True
          define interior
            where "interior = substr string (nat (startIndex + 1)) (nat (int i - startIndex - 1))"
          define string'
            where "string' = substr string 0 (nat (startIndex + 1)) @ callback interior @ drop i string"
          have c1: "control = 1" using True by simp
          with "1.prems"(3) have st: "0 \<le> startIndex" "startIndex < int i"
            "int (length string) - startIndex \<le> int L"
            by auto
          have "length interior < L"
            using st lt by (auto simp: interior_def substr_def)
          with fg have eq: "callback interior = g interior" by blast
          have "rp_loop callback string' (nat (startIndex + int (length (callback interior)) + 3 + 1))
                  (control - 1) startIndex
              = rp_loop g string' (nat (startIndex + int (length (callback interior)) + 3 + 1))
                  (control - 1) startIndex"
            unfolding string'_def interior_def
            apply (rule "1.IH"(2)[OF lt nopen close refl True refl refl refl fg])
            using "1.prems"(2) True lt st by (auto simp: substr_def)
          then show ?thesis using lt nopen close True eq
            apply (subst unf(1))
            apply (subst unf(2))
            apply (simp add: Let_def string'_def interior_def)
            done
        qed
      qed
    qed
  qed
qed

lemma replaceParanthesis_cong [fundef_cong]:
  "s = s' \<Longrightarrow> (\<And>t. length t < length s' \<Longrightarrow> f t = g t) \<Longrightarrow>
   replaceParanthesis s f = replaceParanthesis s' g"
  unfolding replaceParanthesis_def
  by (simp, rule rp_loop_cong_aux[where L = "length s'"]) auto

function parse :: "string \<Rightarrow> string" where
  "parse logic =
     (let logic = replaceParanthesis logic parse;
          logic = replace_from thenWrap None logic in
      replaceAll (replaceAll (replaceAll (replaceAll (replaceAll (replaceAll (replaceAll logic
        re_not ''!'') re_and ''&&'') re_or ''||'') re_equals ''=='') re_xor ''^'')
        re_true ''1'') re_false ''0'')"
  by pat_completeness auto
termination
  by (relation "measure length") auto

declare parse.simps [simp del]

definition prettyPrint :: "string \<Rightarrow> string" where
  "prettyPrint string =
     replaceAll (replaceAll (replaceAll (replaceAll (replaceAll (replaceAll (replaceAll (replaceAll
       string re_and ''&and;'') re_or ''&or;'') re_not ''&sim;'') re_then ''&rarr;'')
       re_xor ''&oplus;'') re_equals ''&equiv;'') (Lit ''('') ''&lpar;'') (Lit '')'') ''&rpar;''"


section \<open>The assignment enumerator\<close>

text \<open>
  A JavaScript array that is written by index is a list of optional elements, \<open>None\<close> being a
  hole. \<open>cell_put\<close> is the body of the innermost loop of \<open>cartesianProduct\<close>:
  \<^verbatim>\<open>if( !cartesian[x] ) cartesian[x] = [ v ]; else cartesian[ x ].push( v );\<close>
  where writing beyond the end of the array extends it. Numbers are unbounded naturals.
\<close>

definition cell_put :: "'a list option list \<Rightarrow> nat \<Rightarrow> 'a \<Rightarrow> 'a list option list" where
  "cell_put cartesian x v =
     (if x < length cartesian then
        (case cartesian ! x of
           None \<Rightarrow> cartesian[x := Some [v]]
         | Some row \<Rightarrow> cartesian[x := Some (row @ [v])])
      else cartesian @ replicate (x - length cartesian) None @ [Some [v]])"

definition cartesianProduct :: "'a list list \<Rightarrow> 'a list option list" where
  "cartesianProduct matrices =
     fold (\<lambda>i cartesian.
        let innerFreq = fold (\<lambda>matrix f. f * length matrix) (drop (i + 1) matrices) 1;
            outerFreq = fold (\<lambda>matrix f. f * length matrix) (take i matrices) 1
        in fold (\<lambda>h cartesian.
             fold (\<lambda>j cartesian.
               fold (\<lambda>k cartesian.
                  let x = j * innerFreq + k + h * innerFreq * length (matrices ! i)
                  in cell_put cartesian x (matrices ! i ! j))
                [0..<innerFreq] cartesian)
              [0..<length (matrices ! i)] cartesian)
            [0..<outerFreq] cartesian)
      [0..<length matrices] []"

section \<open>The truth table\<close>

text \<open>\<^verbatim>\<open>[ ...new Set(xs) ]\<close>: the elements in the order of their first occurrence.\<close>

definition unique :: "'a list \<Rightarrow> 'a list" where
  "unique xs = fold (\<lambda>x seen. if x \<in> set seen then seen else seen @ [x]) xs []"

text \<open>
  The replacement text for premise \<open>j\<close> in a row is \<open>premiseCartesian[i][j]\<close> converted to a
  string.
\<close>

definition premise_text :: "bool list \<Rightarrow> nat \<Rightarrow> string" where
  "premise_text row j =
     (if j < length row then (if row ! j then ''true'' else ''false'') else ''undefined'')"

definition substitute :: "string list \<Rightarrow> bool list \<Rightarrow> string list \<Rightarrow> string list" where
  "substitute premiseOrder row codes =
     fold (\<lambda>j rowCodes.
             map (\<lambda>rowCode. replaceAll rowCode (re_premise (premiseOrder ! j)) (premise_text row j))
                 rowCodes)
          [0..<length premiseOrder] codes"

text \<open>
  \<open>eval\<close> is a parameter \<open>ev\<close>: a function from the text of an expression to the error it
  throws or the value it returns. An error thrown by \<open>eval\<close> is thrown on with the expression
  as its \<open>rowCode\<close>; \<open>TypeError\<close> is what reading a row that is a hole would throw.
\<close>

datatype 'e error = Thrown 'e string | TypeError

fun eval_row :: "(string \<Rightarrow> 'e + 'v) \<Rightarrow> string list \<Rightarrow> 'v list \<Rightarrow> 'e error + 'v list" where
  "eval_row ev [] results = Inr results"
| "eval_row ev (rowCode # rowCodes) results =
     (case ev rowCode of
        Inl err \<Rightarrow> Inl (Thrown err rowCode)
      | Inr v \<Rightarrow> eval_row ev rowCodes (results @ [v]))"

text \<open>
  A finished row is the assignment of the row and the results pushed after it, one for each
  statement.
\<close>

fun rows_loop :: "(string \<Rightarrow> 'e + 'v) \<Rightarrow> string list \<Rightarrow> string list \<Rightarrow> bool list option list
    \<Rightarrow> 'e error + (bool list \<times> 'v list) list" where
  "rows_loop ev premiseOrder codes [] = Inr []"
| "rows_loop ev premiseOrder codes (row # rows) =
     (case row of
        None \<Rightarrow> Inl TypeError
      | Some assignment \<Rightarrow>
          (case eval_row ev (substitute premiseOrder assignment codes) [] of
             Inl e \<Rightarrow> Inl e
           | Inr results \<Rightarrow>
               (case rows_loop ev premiseOrder codes rows of
                  Inl e \<Rightarrow> Inl e
                | Inr finished \<Rightarrow> Inr ((assignment, results) # finished))))"

definition premises_of :: "string list \<Rightarrow> string list" where
  "premises_of codes = unique (match_all (join '','' codes) re_premises)"

text \<open>The table is its header row and its body rows.\<close>

definition calculateTruthTable ::
  "(string \<Rightarrow> 'e + 'v) \<Rightarrow> string \<Rightarrow> 'e error + (string list \<times> (bool list \<times> 'v list) list)" where
  "calculateTruthTable ev logic =
     (let logics = split CHR '','' logic;
          codes = map parse logics;
          premiseOrder = premises_of codes;
          premiseCartesian = cartesianProduct (map (\<lambda>_. [True, False]) premiseOrder)
      in case rows_loop ev premiseOrder codes premiseCartesian of
           Inl e \<Rightarrow> Inl e
         | Inr rows \<Rightarrow> Inr (premiseOrder @ logics, rows))"

section \<open>Evaluation of expressions\<close>

text \<open>
  JavaScript's \<open>eval\<close> on the expressions built from the literals \<open>true\<close>, \<open>false\<close>, \<open>0\<close> and
  \<open>1\<close>, the operators \<open>!\<close>, \<open>&&\<close>, \<open>||\<close>, \<open>==\<close> and \<open>^\<close>, parentheses and spaces, with the
  operator precedence of ECMAScript: unary \<open>!\<close> binds tightest, then \<open>==\<close>, then \<open>^\<close>, then
  \<open>&&\<close>, then \<open>||\<close>, the binary operators associating to the left. A text with anything
  else in it (identifiers, other numbers or operators, calls, line breaks) is outside this
  fragment and gets \<open>OutsideFragment\<close>.
\<close>

datatype jsval = JBool bool | JNum int

datatype js_error = SyntaxError | OutsideFragment

datatype binop = And | Or | Eq | Xor

datatype token = TLit jsval | TNot | TBin binop | TOpen | TClose | TOther

definition lex_word :: "string \<Rightarrow> token" where
  "lex_word w =
     (if w = ''true'' then TLit (JBool True)
      else if w = ''false'' then TLit (JBool False)
      else if w = ''0'' then TLit (JNum 0)
      else if w = ''1'' then TLit (JNum 1)
      else TOther)"

definition flush :: "string \<Rightarrow> token list" where
  "flush w = (if w = [] then [] else [lex_word (rev w)])"

function tokenize :: "string \<Rightarrow> string \<Rightarrow> token list" where
  "tokenize w [] = flush w"
| "tokenize w (c # cs) =
     (if is_word c \<or> c = CHR ''$'' then tokenize (c # w) cs
      else flush w @
        (if c = CHR '' '' then tokenize [] cs
         else if c = CHR ''('' then TOpen # tokenize [] cs
         else if c = CHR '')'' then TClose # tokenize [] cs
         else if c = CHR ''='' then
           (if take 1 cs = ''='' \<and> take 1 (drop 1 cs) \<noteq> ''=''
            then TBin Eq # tokenize [] (drop 1 cs) else [TOther])
         else if take 1 cs = ''='' then [TOther]
         else if c = CHR ''!'' then TNot # tokenize [] cs
         else if c = CHR ''^'' then TBin Xor # tokenize [] cs
         else if take 2 (c # cs) = ''&&'' \<and> take 1 (drop 1 cs) \<noteq> ''=''
           then TBin And # tokenize [] (drop 1 cs)
         else if take 2 (c # cs) = ''||'' \<and> take 1 (drop 1 cs) \<noteq> ''=''
           then TBin Or # tokenize [] (drop 1 cs)
         else [TOther]))"
  by pat_completeness auto
termination
  by (relation "measure (\<lambda>(w, s). length s)") auto


declare tokenize.simps [simp del]

text \<open>
  Parsing by operator precedence, with a stack of pending operators and a stack of operands.
  \<open>shunt operand\<close> reads the next token where an operand is expected (\<open>operand\<close> true) or
  after an operand. An opening parenthesis after an operand would be a call.
\<close>

datatype expr = Const jsval | Not expr | Bin binop expr expr

datatype pending = PNot | PBin binop | POpen

fun prec :: "binop \<Rightarrow> nat" where
  "prec Or = 1"
| "prec And = 2"
| "prec Xor = 3"
| "prec Eq = 4"

fun apply_pending :: "pending \<Rightarrow> expr list \<Rightarrow> expr list option" where
  "apply_pending PNot (e # es) = Some (Not e # es)"
| "apply_pending (PBin b) (r # l # es) = Some (Bin b l r # es)"
| "apply_pending _ _ = None"

fun pop_while :: "(pending \<Rightarrow> bool) \<Rightarrow> pending list \<Rightarrow> expr list
    \<Rightarrow> (pending list \<times> expr list) option" where
  "pop_while p [] out = Some ([], out)"
| "pop_while p (x # ops) out =
     (if p x then (case apply_pending x out of None \<Rightarrow> None | Some out' \<Rightarrow> pop_while p ops out')
      else Some (x # ops, out))"

fun binds_tighter :: "binop \<Rightarrow> pending \<Rightarrow> bool" where
  "binds_tighter b PNot = True"
| "binds_tighter b (PBin b') = (prec b \<le> prec b')"
| "binds_tighter b POpen = False"

fun shunt :: "bool \<Rightarrow> token list \<Rightarrow> pending list \<Rightarrow> expr list \<Rightarrow> js_error + expr" where
  "shunt True [] ops out = Inl SyntaxError"
| "shunt False [] ops out =
     (case pop_while (\<lambda>x. x \<noteq> POpen) ops out of
        Some ([], [e]) \<Rightarrow> Inr e
      | _ \<Rightarrow> Inl SyntaxError)"
| "shunt True (TLit v # ts) ops out = shunt False ts ops (Const v # out)"
| "shunt True (TNot # ts) ops out = shunt True ts (PNot # ops) out"
| "shunt True (TOpen # ts) ops out = shunt True ts (POpen # ops) out"
| "shunt True (_ # ts) ops out = Inl SyntaxError"
| "shunt False (TBin b # ts) ops out =
     (case pop_while (binds_tighter b) ops out of
        None \<Rightarrow> Inl SyntaxError
      | Some (ops', out') \<Rightarrow> shunt True ts (PBin b # ops') out')"
| "shunt False (TClose # ts) ops out =
     (case pop_while (\<lambda>x. x \<noteq> POpen) ops out of
        Some (POpen # ops', out') \<Rightarrow> shunt False ts ops' out'
      | _ \<Rightarrow> Inl SyntaxError)"
| "shunt False (TOpen # ts) ops out = Inl OutsideFragment"
| "shunt False (_ # ts) ops out = Inl SyntaxError"

fun to_boolean :: "jsval \<Rightarrow> bool" where
  "to_boolean (JBool b) = b"
| "to_boolean (JNum n) = (n \<noteq> 0)"

fun to_number :: "jsval \<Rightarrow> int" where
  "to_number (JBool b) = (if b then 1 else 0)"
| "to_number (JNum n) = n"

definition to_int32 :: "int \<Rightarrow> int" where
  "to_int32 n = signed_take_bit 31 n"

fun eval_expr :: "expr \<Rightarrow> jsval" where
  "eval_expr (Const v) = v"
| "eval_expr (Not e) = JBool (\<not> to_boolean (eval_expr e))"
| "eval_expr (Bin And l r) = (let a = eval_expr l in if to_boolean a then eval_expr r else a)"
| "eval_expr (Bin Or l r) = (let a = eval_expr l in if to_boolean a then a else eval_expr r)"
| "eval_expr (Bin Eq l r) = JBool (to_number (eval_expr l) = to_number (eval_expr r))"
| "eval_expr (Bin Xor l r) =
     JNum (to_int32 (to_number (eval_expr l)) XOR to_int32 (to_number (eval_expr r)))"

definition js_parse :: "string \<Rightarrow> js_error + expr" where
  "js_parse text =
     (let tokens = tokenize [] text in
      if TOther \<in> set tokens then Inl OutsideFragment else shunt True tokens [] [])"

definition js_eval :: "string \<Rightarrow> js_error + jsval" where
  "js_eval text = (case js_parse text of Inl e \<Rightarrow> Inl e | Inr e \<Rightarrow> Inr (eval_expr e))"

section \<open>Auxiliary definitions for the proofs\<close>

text \<open>Writing a value into each of the rows \<open>xs\<close>, in that order.\<close>

definition put_all :: "(nat \<Rightarrow> 'a) \<Rightarrow> nat list \<Rightarrow> 'a list option list \<Rightarrow> 'a list option list" where
  "put_all val xs cartesian = fold (\<lambda>x c. cell_put c x (val x)) xs cartesian"


text \<open>The value of variable \<open>i\<close> of \<open>N\<close> in row \<open>x\<close>, and the first \<open>n\<close> values of the row.\<close>

definition bit_of :: "nat \<Rightarrow> nat \<Rightarrow> nat \<Rightarrow> bool" where
  "bit_of N i x = ((x div 2 ^ (N - i - 1)) mod 2 = 0)"

definition row_of :: "nat \<Rightarrow> nat \<Rightarrow> nat \<Rightarrow> bool list" where
  "row_of N n x = map (\<lambda>i. bit_of N i x) [0..<n]"

definition all_rows :: "nat \<Rightarrow> bool list list" where
  "all_rows N = map (row_of N N) [0..<2 ^ N]"





text \<open>The first expression, in a list of expressions, whose evaluation fails.\<close>

fun first_failure :: "(string \<Rightarrow> 'e + 'v) \<Rightarrow> string list \<Rightarrow> ('e \<times> string) option" where
  "first_failure ev [] = None"
| "first_failure ev (rowCode # rowCodes) =
     (case ev rowCode of Inl err \<Rightarrow> Some (err, rowCode) | Inr v \<Rightarrow> first_failure ev rowCodes)"

section \<open>The enumerator counts in binary\<close>

lemma freq_replicate: "fold (\<lambda>matrix f. f * length matrix) (replicate k m) a = a * length m ^ k"
  by (induction k arbitrary: a) (simp_all add: mult.assoc)

lemma k_loop:
  "fold (\<lambda>k c. cell_put c (b + k) v) [0..<n] c = put_all (\<lambda>_. v) [b..<b + n] c"
  by (induction n) (simp_all add: put_all_def)

lemma put_all_append: "put_all val (xs @ ys) c = put_all val ys (put_all val xs c)"
  by (simp add: put_all_def)

lemma put_all_cong: "(\<And>x. x \<in> set xs \<Longrightarrow> val x = val' x) \<Longrightarrow> put_all val xs c = put_all val' xs c"
  unfolding put_all_def by (induction xs arbitrary: c) simp_all

lemma j_loop:
  "fold (\<lambda>j c. put_all (\<lambda>_. m ! j) [j * I + b..<j * I + b + I] c) [0..<J] c
   = put_all (\<lambda>x. m ! ((x - b) div I)) [b..<b + J * I] c"
proof (induction J)
  case 0
  then show ?case by (simp add: put_all_def)
next
  case (Suc J)
  have split: "[b..<b + Suc J * I] = [b..<b + J * I] @ [J * I + b..<J * I + b + I]"
    using upt_add_eq_append[of b "b + J * I" I] by (simp add: add.commute add.left_commute)
  have blk: "put_all (\<lambda>_. m ! J) [J * I + b..<J * I + b + I] c'
           = put_all (\<lambda>x. m ! ((x - b) div I)) [J * I + b..<J * I + b + I] c'" for c'
  proof (rule put_all_cong)
    fix x assume "x \<in> set [J * I + b..<J * I + b + I]"
    then have "J * I \<le> x - b" "x - b < J * I + I" by auto
    then have "(x - b) div I = J"
      by (metis add.commute div_nat_eqI mult.commute mult_Suc_right)
    then show "m ! J = m ! ((x - b) div I)" by simp
  qed
  show ?case
    by (simp add: Suc.IH split put_all_append blk del: mult_Suc)
qed


lemma h_loop:
  "fold (\<lambda>h c. put_all (\<lambda>x. m ! ((x - h * (J * I)) div I)) [h * (J * I)..<h * (J * I) + J * I] c) [0..<O'] c
   = put_all (\<lambda>x. m ! ((x div I) mod J)) [0..<O' * (J * I)] c"
proof (induction O')
  case 0
  then show ?case by (simp add: put_all_def)
next
  case (Suc O')
  have split: "[0..<Suc O' * (J * I)] = [0..<O' * (J * I)] @ [O' * (J * I)..<O' * (J * I) + J * I]"
    using upt_add_eq_append[of 0 "O' * (J * I)" "J * I"] by (simp add: add.commute)
  have blk: "put_all (\<lambda>x. m ! ((x - O' * (J * I)) div I)) [O' * (J * I)..<O' * (J * I) + J * I] c'
           = put_all (\<lambda>x. m ! ((x div I) mod J)) [O' * (J * I)..<O' * (J * I) + J * I] c'" for c'
  proof (rule put_all_cong)
    fix x assume "x \<in> set [O' * (J * I)..<O' * (J * I) + J * I]"
    then have lo: "O' * (J * I) \<le> x" and hi: "x < O' * (J * I) + J * I" by auto
    define y where "y = x - O' * (J * I)"
    have x: "x = y + (O' * J) * I" and y: "y < J * I"
      using lo hi by (auto simp: y_def mult.assoc)
    have "I > 0" using y by (cases I) auto
    have "x div I = y div I + O' * J"
      unfolding x using \<open>I > 0\<close> by simp
    then have "(x div I) mod J = (y div I) mod J" by simp
    also have "\<dots> = y div I"
      using y by (simp add: less_mult_imp_div_less)
    finally show "m ! ((x - O' * (J * I)) div I) = m ! ((x div I) mod J)"
      by (simp add: y_def)
  qed
  show ?case
    unfolding split by (simp add: Suc.IH put_all_append blk del: mult_Suc)
qed

lemma triple_loop:
  "fold (\<lambda>h c. fold (\<lambda>j c. fold (\<lambda>k c. cell_put c (j * I + k + h * I * J) (m ! j)) [0..<I] c)
                     [0..<J] c) [0..<O'] c
   = put_all (\<lambda>x. m ! ((x div I) mod J)) [0..<O' * (J * I)] c"
proof -
  have idx: "j * I + k + h * I * J = (j * I + h * (J * I)) + k" for j k h
    by (simp add: algebra_simps)
  have k: "fold (\<lambda>k c. cell_put c (j * I + k + h * I * J) (m ! j)) [0..<I] c'
         = put_all (\<lambda>_. m ! j) [j * I + h * (J * I)..<j * I + h * (J * I) + I] c'" for j h c'
    unfolding idx by (rule k_loop)
  show ?thesis
    unfolding k j_loop h_loop[symmetric] by (simp add: add.commute)
qed


lemma put_all_first: "put_all val [0..<T] [] = map (\<lambda>x. Some [val x]) [0..<T]"
proof (induction T)
  case 0
  then show ?case by (simp add: put_all_def)
next
  case (Suc T)
  then show ?case by (simp add: put_all_append) (simp add: put_all_def cell_put_def)
qed

lemma put_all_next_aux:
  "n \<le> length rows \<Longrightarrow>
   put_all val [0..<n] (map Some rows)
   = map (\<lambda>x. Some (if x < n then rows ! x @ [val x] else rows ! x)) [0..<length rows]"
proof (induction n)
  case 0
  show ?case by (simp add: put_all_def) (rule nth_equalityI, simp_all)
next
  case (Suc n)
  then have n: "n < length rows" by simp
  have "put_all val [0..<Suc n] (map Some rows)
      = cell_put (map (\<lambda>x. Some (if x < n then rows ! x @ [val x] else rows ! x)) [0..<length rows])
          n (val n)"
    using Suc by (simp add: put_all_append) (simp add: put_all_def)
  also have "\<dots> = (map (\<lambda>x. Some (if x < n then rows ! x @ [val x] else rows ! x)) [0..<length rows])
                     [n := Some (rows ! n @ [val n])]"
    using n by (simp add: cell_put_def)
  also have "\<dots> = map (\<lambda>x. Some (if x < Suc n then rows ! x @ [val x] else rows ! x)) [0..<length rows]"
    using n by (auto intro!: nth_equalityI simp: nth_list_update less_Suc_eq)
  finally show ?case .
qed

lemma put_all_next:
  "put_all val [0..<length rows] (map Some rows) = map (\<lambda>x. Some (rows ! x @ [val x])) [0..<length rows]"
  using put_all_next_aux[of "length rows" rows val] by simp

lemma enumerator_step:
  assumes "i < N"
  shows "(let innerFreq = fold (\<lambda>matrix f. f * length matrix) (drop (i + 1) (replicate N [True, False])) 1;
              outerFreq = fold (\<lambda>matrix f. f * length matrix) (take i (replicate N [True, False])) 1
          in fold (\<lambda>h cartesian.
               fold (\<lambda>j cartesian.
                 fold (\<lambda>k cartesian.
                    let x = j * innerFreq + k + h * innerFreq * length (replicate N [True, False] ! i)
                    in cell_put cartesian x (replicate N [True, False] ! i ! j))
                  [0..<innerFreq] cartesian)
                [0..<length (replicate N [True, False] ! i)] cartesian)
              [0..<outerFreq] cartesian)
         = put_all (\<lambda>x. bit_of N i x) [0..<2 ^ N] cartesian"
proof -
  let ?m = "[True, False]"
  have inner: "fold (\<lambda>matrix f. f * length matrix) (drop (i + 1) (replicate N ?m)) 1 = 2 ^ (N - Suc i)"
  proof -
    have "drop (i + 1) (replicate N ?m) = replicate (N - Suc i) ?m" by simp
    then show ?thesis by (simp only: freq_replicate) (simp add: numeral_2_eq_2)
  qed
  have outer: "fold (\<lambda>matrix f. f * length matrix) (take i (replicate N ?m)) 1 = 2 ^ i"
  proof -
    have "take i (replicate N ?m) = replicate i ?m" using assms by (simp add: min_def)
    then show ?thesis by (simp only: freq_replicate) (simp add: numeral_2_eq_2)
  qed
  have nth: "replicate N ?m ! i = ?m"
    using assms by simp
  have size: "(2::nat) ^ i * (length ?m * 2 ^ (N - Suc i)) = 2 ^ N"
  proof -
    have "N = i + Suc (N - Suc i)" using assms by simp
    then have "(2::nat) ^ N = 2 ^ i * 2 ^ Suc (N - Suc i)" by (metis power_add)
    then show ?thesis by simp
  qed
  have val: "?m ! ((x div 2 ^ (N - Suc i)) mod length ?m) = bit_of N i x" for x
  proof -
    define k where "k = x div 2 ^ (N - Suc i)"
    have len: "length ?m = 2" by simp
    have "k mod 2 = 0 \<or> k mod 2 = 1" by arith
    then have "?m ! (k mod 2) = (k mod 2 = 0)" by auto
    then show ?thesis unfolding len bit_of_def by (simp add: k_def)
  qed
  show ?thesis
    unfolding Let_def inner outer nth triple_loop size val ..
qed

lemma enumerator_prefix:
  "n \<le> N \<Longrightarrow>
   fold (\<lambda>i cartesian. put_all (\<lambda>x. bit_of N i x) [0..<2 ^ N] cartesian) [0..<n] []
   = (if n = 0 then [] else map (\<lambda>x. Some (row_of N n x)) [0..<2 ^ N])"
proof (induction n)
  case 0
  then show ?case by simp
next
  case (Suc n)
  show ?case
  proof (cases "n = 0")
    case True
    then show ?thesis by (simp add: put_all_first row_of_def)
  next
    case False
    have "put_all (bit_of N n) [0..<2 ^ N] (map (\<lambda>x. Some (row_of N n x)) [0..<2 ^ N])
        = map (\<lambda>x. Some (row_of N (Suc n) x)) [0..<2 ^ N]"
      using put_all_next[of "bit_of N n" "map (row_of N n) [0..<2 ^ N]"]
      by (simp add: row_of_def comp_def)
    then show ?thesis using Suc False by simp
  qed
qed

lemma cartesianProduct_booleans:
  "cartesianProduct (replicate N [True, False])
   = (if N = 0 then [] else map (\<lambda>x. Some (row_of N N x)) [0..<2 ^ N])"
proof -
  have "cartesianProduct (replicate N [True, False])
      = fold (\<lambda>i cartesian. put_all (\<lambda>x. bit_of N i x) [0..<2 ^ N] cartesian) [0..<N] []"
    unfolding cartesianProduct_def
    apply (rule fold_cong)
      apply (rule refl)
     apply simp
    apply (rule ext)
    apply (rule enumerator_step)
    apply simp
    done
  then show ?thesis by (simp add: enumerator_prefix)
qed


lemma bit_of_Suc: "bit_of (Suc N) (Suc i) x = bit_of N i x"
  by (simp add: bit_of_def)

lemma row_of_Suc: "row_of (Suc N) (Suc N) x = bit_of (Suc N) 0 x # row_of N N x"
proof -
  have "[0..<Suc N] = 0 # map Suc [0..<N]"
    by (simp add: upt_conv_Cons map_Suc_upt del: upt_Suc)
  then show ?thesis
    by (simp add: row_of_def bit_of_Suc comp_def del: upt_Suc)
qed

lemma bit_of_shift:
  assumes "i < N"
  shows "bit_of N i (x + 2 ^ N) = bit_of N i x"
proof -
  have N: "N = (N - i - 1) + Suc i" using assms by simp
  have "(x + 2 ^ N) div 2 ^ (N - i - 1) = x div 2 ^ (N - i - 1) + 2 ^ Suc i"
  proof -
    have "(2::nat) ^ N = 2 ^ Suc i * 2 ^ (N - i - 1)"
      by (subst N) (simp only: power_add mult.commute)
    then show ?thesis by simp
  qed
  then show ?thesis by (simp add: bit_of_def)
qed

lemma row_of_shift: "row_of N N (x + 2 ^ N) = row_of N N x"
  by (simp add: row_of_def bit_of_shift)

lemma all_rows_0: "all_rows 0 = [[]]"
  by (simp add: all_rows_def row_of_def)

lemma all_rows_Suc:
  "all_rows (Suc N) = map ((#) True) (all_rows N) @ map ((#) False) (all_rows N)"
proof -
  have split: "[0..<2 ^ Suc N] = [0..<2 ^ N] @ map (\<lambda>x. x + 2 ^ N) [0..<2 ^ N]"
    using upt_add_eq_append[of 0 "2 ^ N" "2 ^ N"]
    by (simp add: map_add_upt mult_2)
  have low: "x < 2 ^ N \<Longrightarrow> bit_of (Suc N) 0 x" for x
    by (simp add: bit_of_def)
  have high: "x < 2 ^ N \<Longrightarrow> \<not> bit_of (Suc N) 0 (x + 2 ^ N)" for x
  proof -
    assume "x < 2 ^ N"
    then have "(x + 2 ^ N) div 2 ^ N = 1" by (simp add: div_add_self2)
    then show ?thesis by (simp add: bit_of_def)
  qed
  have 1: "map (row_of (Suc N) (Suc N)) [0..<2 ^ N] = map ((#) True) (all_rows N)"
    by (simp add: all_rows_def row_of_Suc low)
  have 2: "map (row_of (Suc N) (Suc N)) (map (\<lambda>x. x + 2 ^ N) [0..<2 ^ N]) = map ((#) False) (all_rows N)"
    by (simp add: all_rows_def row_of_Suc high row_of_shift)
  show ?thesis
    unfolding all_rows_def[of "Suc N"] split map_append 1 2 ..
qed

lemma set_all_rows: "set (all_rows N) = {a. length a = N}"
proof (induction N)
  case 0
  then show ?case by (simp add: all_rows_0)
next
  case (Suc N)
  show ?case
  proof (rule set_eqI)
    fix a :: "bool list"
    show "a \<in> set (all_rows (Suc N)) \<longleftrightarrow> a \<in> {a. length a = Suc N}"
    proof (cases a)
      case Nil
      then show ?thesis by (auto simp: all_rows_Suc)
    next
      case (Cons b bs)
      then show ?thesis using Suc by (cases b) (auto simp: all_rows_Suc)
    qed
  qed
qed

lemma distinct_all_rows: "distinct (all_rows N)"
  by (induction N) (auto simp: all_rows_0 all_rows_Suc distinct_map)

lemma length_all_rows: "length (all_rows N) = 2 ^ N"
  by (simp add: all_rows_def)

lemma all_rows_unique_index:
  assumes "length a = N"
  shows "\<exists>!x. x < 2 ^ N \<and> all_rows N ! x = a"
proof -
  have "a \<in> set (all_rows N)" using assms by (simp add: set_all_rows)
  then show ?thesis
    using distinct_Ex1[OF distinct_all_rows, of a N] by (simp add: length_all_rows)
qed


section \<open>Evaluation rules\<close>

lemma of_char_canonicalize:
  "(of_char (canonicalize c) :: nat) =
     (if 97 \<le> (of_char c :: nat) \<and> (of_char c :: nat) \<le> 122 then of_char c - 32 else of_char c)"
  by (auto simp add: canonicalize_def Let_def)

lemma canonicalize_eq_iff:
  "canonicalize x = canonicalize y \<longleftrightarrow>
     (if 97 \<le> (of_char x :: nat) \<and> (of_char x :: nat) \<le> 122 then of_char x - 32 else of_char x)
   = (if 97 \<le> (of_char y :: nat) \<and> (of_char y :: nat) \<le> 122 then of_char y - 32 else (of_char y :: nat))"
  unfolding of_char_canonicalize[symmetric] by simp

lemmas regex_defs = re_true_def re_false_def re_and_def re_or_def re_not_def re_then_def
  re_equals_def re_xor_def re_premises_def re_premise_def bslash_def

lemmas string_evals = replace_from.simps replaceAll_def match_from.simps match_all_def re_const_def
  thenWrap_def thenWrap_groups_def matched_def trim_def substr_def is_word_def is_space_def
  is_line_terminator_def canonicalize_eq_iff word_before_def word_after_def Let_def

lemmas compile_evals = replaceParanthesis_def rp_loop.simps regex_defs string_evals

lemmas table_evals = calculateTruthTable_def premises_of_def unique_def substitute_def
  premise_text_def upt_conv_Cons

lemmas js_evals = js_eval_def js_parse_def tokenize.simps flush_def lex_word_def to_int32_def
  is_word_def Let_def

lemma cartesianProduct_Nil: "cartesianProduct [] = []"
  by (simp add: cartesianProduct_def)

lemma cartesianProduct_2:
  "cartesianProduct [[True, False], [True, False]]
   = [Some [True, True], Some [True, False], Some [False, True], Some [False, False]]"
proof -
  have rep: "replicate 2 [True, False] = [[True, False], [True, False]]"
    by (simp add: numeral_2_eq_2)
  have "cartesianProduct (replicate 2 [True, False]) = map (\<lambda>x. Some (row_of 2 2 x)) [0..<2 ^ 2]"
    using cartesianProduct_booleans[of 2] by simp
  then show ?thesis
    unfolding rep by (simp add: row_of_def bit_of_def upt_conv_Cons)
qed

lemma cartesianProduct_map_const:
  "cartesianProduct (map (\<lambda>_. [True, False]) xs)
   = (if xs = [] then []
      else map (\<lambda>x. Some (row_of (length xs) (length xs) x)) [0..<2 ^ length xs])"
  by (simp add: map_replicate_const cartesianProduct_booleans)

lemma calculateTruthTable_rows:
  "calculateTruthTable ev logic =
     (let logics = split CHR '','' logic;
          codes = map parse logics;
          premiseOrder = premises_of codes;
          premiseCartesian =
            (if premiseOrder = [] then []
             else map (\<lambda>x. Some (row_of (length premiseOrder) (length premiseOrder) x))
                      [0..<2 ^ length premiseOrder])
      in case rows_loop ev premiseOrder codes premiseCartesian of
           Inl e \<Rightarrow> Inl e
         | Inr rows \<Rightarrow> Inr (premiseOrder @ logics, rows))"
  by (simp add: calculateTruthTable_def cartesianProduct_map_const Let_def)

lemmas rows_evals = calculateTruthTable_rows premises_of_def unique_def substitute_def
  premise_text_def upt_conv_Cons row_of_def bit_of_def


section \<open>Compiled statements used as examples\<close>

lemma parse_T_and_F: "parse ''T and F'' = ''1 && 0''"
  by (subst parse.simps) (simp add: compile_evals cong: let_weak_cong)

lemma parse_p_and_q: "parse ''p and q'' = ''p && q''"
  by (subst parse.simps) (simp add: compile_evals cong: let_weak_cong)

lemma parse_a_then_b_then_c: "parse ''a then b then c'' = ''!(a) || (b then c)''"
  by (subst parse.simps) (simp add: compile_evals cong: let_weak_cong)

lemma parse_p: "parse ''p'' = ''p''"
  by (subst parse.simps) (simp add: compile_evals cong: let_weak_cong)

lemma parse_plus: "parse ''+'' = ''+''"
  by (subst parse.simps) (simp add: compile_evals cong: let_weak_cong)

lemma parse_q_then_r: "parse ''q then r'' = ''!(q) || (r)''"
  by (subst parse.simps) (simp add: compile_evals cong: let_weak_cong)

lemma rp_example: "replaceParanthesis ''(p) (+) (q then r)'' parse = ''(p) (+) (q then r)''"
  by (simp add: replaceParanthesis_def rp_loop.simps substr_def parse_p Let_def cong: let_weak_cong)












section \<open>The claims\<close>

text \<open>
  Claim C1. For an input whose compiled expressions have no free variable, such as the
  statement \<open>T and F\<close>, the table should have exactly one body row, whose result is the constant
  value of the statement. The code does not do this: \<open>cartesianProduct\<close> of no domains is the
  empty array instead of the array of the one empty assignment, so the table of \<open>T and F\<close> is
  its header with no body row, whatever \<open>eval\<close> does.
\<close>

theorem constant_statement_has_no_row:
  "calculateTruthTable ev ''T and F'' = Inr ([''T and F''], [])"
  by (simp add: table_evals parse_T_and_F cartesianProduct_Nil compile_evals cong: let_weak_cong)


text \<open>
  Claim C2. For \<open>N \<ge> 1\<close> variables the enumerator produces exactly \<open>2 ^ N\<close> rows; the value of
  variable \<open>i\<close> (counted from 0) in row \<open>x\<close> is true exactly when
  \<open>(x div 2 ^ (N - i - 1)) mod 2 = 0\<close>, which is binary counting with the first variable most
  significant; and every assignment of \<open>N\<close> booleans is the row of exactly one index.
\<close>

theorem enumerator_binary_counting:
  "0 < N \<Longrightarrow>
   length (cartesianProduct (replicate N [True, False])) = 2 ^ N \<and>
   (\<forall>x < 2 ^ N. cartesianProduct (replicate N [True, False]) ! x
        = Some (map (\<lambda>i. (x div 2 ^ (N - i - 1)) mod 2 = 0) [0..<N])) \<and>
   (\<forall>a. length a = N \<longrightarrow>
        (\<exists>!x. x < 2 ^ N \<and> cartesianProduct (replicate N [True, False]) ! x = Some a))"
proof -
  assume N: "0 < N"
  have cp: "cartesianProduct (replicate N [True, False]) = map Some (all_rows N)"
    using N by (simp add: cartesianProduct_booleans all_rows_def)
  have nth: "x < 2 ^ N \<Longrightarrow> map Some (all_rows N) ! x = Some (all_rows N ! x)" for x
    by (simp add: length_all_rows)
  show ?thesis
  proof (intro conjI allI impI)
    show "length (cartesianProduct (replicate N [True, False])) = 2 ^ N"
      by (simp add: cp length_all_rows)
  next
    fix x :: nat assume "x < 2 ^ N"
    then show "cartesianProduct (replicate N [True, False]) ! x
        = Some (map (\<lambda>i. (x div 2 ^ (N - i - 1)) mod 2 = 0) [0..<N])"
      by (simp add: cp all_rows_def row_of_def bit_of_def)
  next
    fix a :: "bool list" assume "length a = N"
    from all_rows_unique_index[OF this]
    show "\<exists>!x. x < 2 ^ N \<and> cartesianProduct (replicate N [True, False]) ! x = Some a"
      unfolding cp by (metis nth option.inject)
  qed
qed


theorem enumerator_binary_counting_witness:
  "0 < (2::nat) \<and> length (cartesianProduct (replicate 2 [True, False])) = 4 \<and>
   cartesianProduct (replicate 2 [True, False]) ! 1 = Some [True, False]"
proof -
  have h: "0 < (2::nat)" by simp
  note t = enumerator_binary_counting[OF h]
  from t have len: "length (cartesianProduct (replicate 2 [True, False])) = 2 ^ 2" by blast
  from t have "\<forall>x < 2 ^ 2. cartesianProduct (replicate 2 [True, False]) ! x
        = Some (map (\<lambda>i. (x div 2 ^ (2 - i - 1)) mod 2 = 0) [0..<2])" by blast
  then have "cartesianProduct (replicate 2 [True, False]) ! 1
        = Some (map (\<lambda>i. ((1::nat) div 2 ^ (2 - i - 1)) mod 2 = 0) [0..<2])" by simp
  then show ?thesis using len by (simp add: upt_conv_Cons)
qed

text \<open>
  Claim C3. For the input \<open>p and q\<close> the table has the header \<open>p\<close>, \<open>q\<close>, \<open>p and q\<close> and exactly
  the four rows (T,T) with result T, (T,F) with result F, (F,T) with result F and (F,F) with
  result F.
\<close>

theorem p_and_q_table:
  "calculateTruthTable js_eval ''p and q'' =
     Inr ([''p'', ''q'', ''p and q''],
          [([True, True], [JBool True]), ([True, False], [JBool False]),
           ([False, True], [JBool False]), ([False, False], [JBool False])])"
  by (simp add: table_evals parse_p_and_q cartesianProduct_2 compile_evals js_evals
      cong: let_weak_cong)


text \<open>
  Claim C4. A statement with more than one implication marker should have all of them
  eliminated, associating to the right. The code eliminates only the first: the second
  capture group of the pattern takes the rest of the statement, which is wrapped without
  being compiled again. \<open>a then b then c\<close> compiles to an expression that still contains
  \<open>then\<close>, which is then taken for a variable, and the evaluation of the first row fails.
\<close>

theorem second_implication_not_eliminated:
  "parse ''a then b then c'' = ''!(a) || (b then c)'' \<and>
   calculateTruthTable js_eval ''a then b then c''
     = Inl (Thrown SyntaxError ''!(true) || (true true true)'')"
  by (simp add: rows_evals parse_a_then_b_then_c compile_evals js_evals cong: let_weak_cong)






text \<open>
  Claim C6. After the interior of an outermost group has been rewritten, the scan should
  resume right after the group, so that no later outermost group is missed. The code sets
  \<open>i\<close> to \<open>startIndex + replacementString.length + 3\<close>, which the loop then increments: the two
  characters that follow the closing parenthesis are never looked at. In
  \<open>(p) (+) (q then r)\<close> the opening parenthesis of \<open>(+)\<close> is skipped, the nesting depth falls
  to \<open>-1\<close>, and the group \<open>(q then r)\<close> is never passed to the callback, although the callback
  would rewrite its interior; the statement then compiles to a different formula.
\<close>

theorem later_groups_skipped:
  "replaceParanthesis ''(p) (+) (q then r)'' parse = ''(p) (+) (q then r)'' \<and>
   parse ''q then r'' = ''!(q) || (r)'' \<and>
   parse ''(p) (+) (q then r)'' = ''!((p) ^ (q) || (r))''"
  apply (intro conjI)
    apply (rule rp_example)
   apply (rule parse_q_then_r)
  apply (subst parse.simps)
  apply (simp only: rp_example)
  apply (simp add: regex_defs string_evals cong: let_weak_cong)
  done






end
